theory Spec2Isabelle
  imports Complex_Main "HOL-Library.AList"
begin

section \<open>Data model\<close>

text \<open>
  A row of \<open>self.data\<close>, the long-format frame that \<open>read_data\<close> returns: the five
  IAMC index columns, the year (made numeric by the loader) and the value (rows with a
  missing value are dropped by the loader, so a value is an ordinary number).  The field
  \<open>val\<close> is the column \<open>value\<close>.
\<close>

record observation =
  model :: string
  scenario :: string
  region :: string
  variable :: string
  unit :: string
  year :: int
  val :: real

type_synonym entity = "string \<times> string"

definition entity_of :: "observation \<Rightarrow> entity" where
  "entity_of r = (model r, scenario r)"

text \<open>
  The Python values a filter dictionary can hold for an axis: a string, a list of strings,
  an integer, a list of integers, a \<open>range(start, stop, step)\<close> object (Python refuses
  to build one with step 0) and \<open>None\<close>, which stands for the values that are none of
  these and cannot be iterated.
\<close>

datatype pyval =
    PStr string
  | PStrList "string list"
  | PInt int
  | PIntList "int list"
  | PRange int int int
  | PNone

text \<open>
  The exceptions of the source as values.  \<open>SystemError\<close> carries the message the source
  builds.  \<open>ReError\<close> is \<open>re.error\<close>, raised by \<open>re.compile\<close> on an ill-formed
  pattern.  \<open>Unmodelled\<close> is not an exception of the source: it marks a pattern that uses
  regular-expression syntax outside the fragment embedded below, about which this theory
  makes no statement.
\<close>

datatype error =
    SystemError string
  | TypeError
  | AttributeError
  | ReError
  | Unmodelled

text \<open>
  A filter dictionary: keys are unique and iteration follows insertion order, so it is an
  association list with distinct keys; \<open>d[k] = v\<close> is \<open>AList.update k v d\<close>, which
  replaces the value in place or appends the new key.
\<close>

type_synonym filters = "(string \<times> pyval) list"

section \<open>The regular expressions of \<open>re\<close>, as far as the filters need them\<close>

text \<open>
  \<open>keep_col_match\<close> hands each filter string to \<open>re.compile\<close> and tests every cell with
  \<open>pattern.match\<close>.  The fragment of Python's pattern language embedded here: an ordinary
  character, \<open>.\<close> (any character but a line feed), a backslash before a character that is
  neither an ASCII letter nor a digit (that character, literally), \<open>*\<close> after one of
  these (any number of repetitions), \<open>^\<close> (start of the string) and \<open>$\<close> (end of the
  string, or just before a line feed that ends it).  A pattern holding one of
  \<open>+ ? { } [ ] ( ) |\<close> unescaped, or a backslash before a letter or digit, is
  \<open>Unmodelled\<close>.
\<close>

datatype token = TLit char | TDot | TStar | TBol | TEol

datatype atom = Lit char | Dot

datatype item = One atom | Star atom | Bol | Eol

definition backslash :: char where
  "backslash = CHR 0x5C"

definition linefeed :: char where
  "linefeed = CHR 0x0A"

definition ascii_alnum :: "char \<Rightarrow> bool" where
  "ascii_alnum c =
     (let n = (of_char c :: nat)
      in (48 \<le> n \<and> n \<le> 57) \<or> (65 \<le> n \<and> n \<le> 90) \<or> (97 \<le> n \<and> n \<le> 122))"

definition outside_fragment :: "char \<Rightarrow> bool" where
  "outside_fragment c = (c \<in> set ''+?{}[]()|'')"

definition plain_token :: "char \<Rightarrow> token" where
  "plain_token c =
     (if c = CHR ''.'' then TDot
      else if c = CHR ''*'' then TStar
      else if c = CHR ''^'' then TBol
      else if c = CHR ''$'' then TEol
      else TLit c)"

definition cons_ok :: "'a \<Rightarrow> error + 'a list \<Rightarrow> error + 'a list" where
  "cons_ok x r = (case r of Inl e \<Rightarrow> Inl e | Inr xs \<Rightarrow> Inr (x # xs))"

fun tokens :: "string \<Rightarrow> error + token list" where
  "tokens [] = Inr []"
| "tokens (c # cs) =
     (if c = backslash then
        (case cs of
           [] \<Rightarrow> Inl ReError
         | d # ds \<Rightarrow> if ascii_alnum d then Inl Unmodelled else cons_ok (TLit d) (tokens ds))
      else if outside_fragment c then Inl Unmodelled
      else cons_ok (plain_token c) (tokens cs))"

text \<open>
  A \<open>*\<close> repeats the atom before it.  With nothing before it, after \<open>^\<close> or \<open>$\<close>, or
  after another \<open>*\<close>, \<open>re.compile\<close> raises (nothing to repeat, multiple repeat).
\<close>

fun items :: "token list \<Rightarrow> error + item list" where
  "items [] = Inr []"
| "items (TStar # ts) = Inl ReError"
| "items (TLit a # TStar # ts) = cons_ok (Star (Lit a)) (items ts)"
| "items (TDot # TStar # ts) = cons_ok (Star Dot) (items ts)"
| "items (TLit a # ts) = cons_ok (One (Lit a)) (items ts)"
| "items (TDot # ts) = cons_ok (One Dot) (items ts)"
| "items (TBol # ts) = cons_ok Bol (items ts)"
| "items (TEol # ts) = cons_ok Eol (items ts)"

definition re_compile :: "string \<Rightarrow> error + item list" where
  "re_compile s = (case tokens s of Inl e \<Rightarrow> Inl e | Inr ts \<Rightarrow> items ts)"

fun atom_matches :: "atom \<Rightarrow> char \<Rightarrow> bool" where
  "atom_matches (Lit a) c = (a = c)"
| "atom_matches Dot c = (c \<noteq> linefeed)"

text \<open>
  \<open>match_at p at_start s\<close>: some prefix of \<open>s\<close> matches the whole of \<open>p\<close>, where
  \<open>at_start\<close> says that nothing of the subject string has been consumed yet.  This is
  when \<open>pattern.match\<close> returns a match object (it anchors at the start of the string
  and not at its end); the backtracking of the library visits exactly these choices.
\<close>

fun match_at :: "item list \<Rightarrow> bool \<Rightarrow> string \<Rightarrow> bool" where
  "match_at [] b s = True"
| "match_at (One a # p) b [] = False"
| "match_at (One a # p) b (c # cs) = (atom_matches a c \<and> match_at p False cs)"
| "match_at (Star a # p) b [] = match_at p b []"
| "match_at (Star a # p) b (c # cs) =
     ((atom_matches a c \<and> match_at (Star a # p) False cs) \<or> match_at p b (c # cs))"
| "match_at (Bol # p) b s = (b \<and> match_at p b s)"
| "match_at (Eol # p) b s = ((s = [] \<or> s = [linefeed]) \<and> match_at p b s)"

definition re_match :: "item list \<Rightarrow> string \<Rightarrow> bool" where
  "re_match p s = match_at p True s"

section \<open>The filter engine\<close>

text \<open>\<open>s.replace(old, new)\<close> for a one-character \<open>old\<close>.\<close>

definition replace :: "char \<Rightarrow> string \<Rightarrow> string \<Rightarrow> string" where
  "replace old new s = concat (map (\<lambda>c. if c = old then new else [c]) s)"

text \<open>Line 401: escape \<open>|\<close>, turn \<open>*\<close> into \<open>.*\<close>, anchor at the end.\<close>

definition pseudo_regex_of :: "string \<Rightarrow> string" where
  "pseudo_regex_of s =
     replace (CHR ''*'') ''.*'' (replace (CHR ''|'') [backslash, CHR ''|''] s) @ ''$''"

text \<open>
  The loop of \<open>keep_col_match\<close> (lines 399 to 404) over the filter strings, with the
  mask built so far.  \<open>subset\<close> holds the cells the pattern matches and \<open>col.isin\<close>
  marks the cells that occur in it.
\<close>

fun keep_col_match_loop ::
  "string list \<Rightarrow> string list \<Rightarrow> bool \<Rightarrow> bool list \<Rightarrow> error + bool list" where
  "keep_col_match_loop col [] pseudo_regex keep_col = Inr keep_col"
| "keep_col_match_loop col (s # strings) pseudo_regex keep_col =
     (case re_compile (if pseudo_regex then pseudo_regex_of s else s) of
        Inl e \<Rightarrow> Inl e
      | Inr pattern \<Rightarrow>
          (let subset = filter (re_match pattern) col
           in keep_col_match_loop col strings pseudo_regex
                (map2 (\<or>) keep_col (map (\<lambda>c. c \<in> set subset) col))))"

text \<open>The elements of a \<open>range\<close> object, as a list without order.\<close>

definition range_elems :: "int \<Rightarrow> int \<Rightarrow> int \<Rightarrow> int list" where
  "range_elems start stop step =
     (if 0 < step then filter (\<lambda>y. (y - start) mod step = 0) [start..stop - 1]
      else if step < 0 then filter (\<lambda>y. (start - y) mod (- step) = 0) [stop + 1..start]
      else [])"

text \<open>
  \<open>keep_col_match\<close>: a string becomes a one-element list; anything else is iterated as
  it is.  Iterating an integer or \<open>None\<close> raises \<open>TypeError\<close>; an integer met as an
  element has no \<open>replace\<close> (\<open>AttributeError\<close>) and is refused by \<open>re.compile\<close>
  (\<open>TypeError\<close>).
\<close>

definition keep_col_match :: "string list \<Rightarrow> pyval \<Rightarrow> bool \<Rightarrow> error + bool list" where
  "keep_col_match col strings pseudo_regex =
     (let keep_col = replicate (length col) False;
          no_str = (if pseudo_regex then AttributeError else TypeError)
      in case strings of
           PStr s \<Rightarrow> keep_col_match_loop col [s] pseudo_regex keep_col
         | PStrList ss \<Rightarrow> keep_col_match_loop col ss pseudo_regex keep_col
         | PIntList ys \<Rightarrow> (if ys = [] then Inr keep_col else Inl no_str)
         | PRange a b st \<Rightarrow> (if range_elems a b st = [] then Inr keep_col else Inl no_str)
         | PInt y \<Rightarrow> Inl TypeError
         | PNone \<Rightarrow> Inl TypeError)"

text \<open>
  \<open>keep_col_yr\<close>: an integer is compared for equality, a list or a range is tested by
  membership (a list of strings holds no year).  For any other value the source builds
  its message by string concatenation, which yields the \<open>SystemError\<close> for a string and
  raises \<open>TypeError\<close> for a value that is not a string.
\<close>

definition keep_col_yr :: "int list \<Rightarrow> pyval \<Rightarrow> error + bool list" where
  "keep_col_yr col yrs =
     (case yrs of
        PInt y \<Rightarrow> Inr (map (\<lambda>c. c = y) col)
      | PIntList ys \<Rightarrow> Inr (map (\<lambda>c. c \<in> set ys) col)
      | PStrList ss \<Rightarrow> Inr (map (\<lambda>c. False) col)
      | PRange a b st \<Rightarrow> Inr (map (\<lambda>c. c \<in> set (range_elems a b st)) col)
      | PStr s \<Rightarrow>
          Inl (SystemError (''filtering for years by '' @ s @ '' not supported,''
                 @ ''must be int, list or range''))
      | PNone \<Rightarrow> Inl TypeError)"

section \<open>The frame and \<open>select\<close>\<close>

text \<open>
  An \<open>IamDataFrame\<close>: the data and the category table \<open>self.cat\<close>, one row per
  (model, scenario) pair with its label, \<open>None\<close> for the initial \<open>NaN\<close>.
\<close>

record iamdf =
  data :: "observation list"
  cat :: "(entity \<times> string option) list"

text \<open>Lines 62 to 64 of \<open>__init__\<close>.\<close>

definition IamDataFrame :: "observation list \<Rightarrow> iamdf" where
  "IamDataFrame d = \<lparr>data = d, cat = map (\<lambda>k. (k, None)) (remdups (map entity_of d))\<rparr>"

text \<open>
  The body of the loop of \<open>select\<close> (lines 310 to 321): the mask of one entry of the
  filter dictionary, or the error raised for it.
\<close>

definition keep_col_for :: "observation list \<Rightarrow> string \<Rightarrow> pyval \<Rightarrow> error + bool list" where
  "keep_col_for d col values =
     (if col = ''model'' then keep_col_match (map model d) values False
      else if col = ''scenario'' then keep_col_match (map scenario d) values False
      else if col = ''region'' then keep_col_match (map region d) values False
      else if col = ''variable'' then keep_col_match (map variable d) values True
      else if col = ''year'' then keep_col_yr (map year d) values
      else Inl (SystemError (''filter by column '' @ col @ '' not supported'')))"

text \<open>
  The loop of \<open>select\<close> over the filter dictionary (lines 309 to 322), with the mask
  \<open>keep\<close> built so far.
\<close>

fun select_loop :: "observation list \<Rightarrow> filters \<Rightarrow> bool list \<Rightarrow> error + bool list" where
  "select_loop d [] keep = Inr keep"
| "select_loop d ((col, values) # fs) keep =
     (case keep_col_for d col values of
        Inl e \<Rightarrow> Inl e
      | Inr keep_col \<Rightarrow> select_loop d fs (map2 (\<and>) keep keep_col))"

definition select_keep :: "iamdf \<Rightarrow> filters \<Rightarrow> error + bool list" where
  "select_keep self fs = select_loop (data self) fs (replicate (length (data self)) True)"

text \<open>
  \<open>select(filters)\<close> as \<open>check\<close> calls it, with neither \<open>cols\<close> nor \<open>idx_cols\<close>:
  the rows of \<open>self.data[keep]\<close> in their order.  With \<open>cols\<close> the source goes on to
  project and deduplicate these same rows, after the mask has been computed.
\<close>

definition select :: "iamdf \<Rightarrow> filters \<Rightarrow> error + observation list" where
  "select self fs =
     (case select_keep self fs of
        Inl e \<Rightarrow> Inl e
      | Inr keep \<Rightarrow> Inr (map fst (filter snd (zip (data self) keep))))"

section \<open>The criteria checker\<close>

text \<open>
  The dictionary \<open>check\<close>: the optional keys \<open>'up'\<close>, \<open>'lo'\<close> and \<open>'year'\<close>
  (the field \<open>check_year\<close>).
\<close>

record check_spec =
  up :: "real option"
  lo :: "real option"
  check_year :: "pyval option"

text \<open>
  Lines 261 to 268: the mask starts all true and is conjoined with \<open>value <= up\<close> and
  with \<open>value > lo\<close> for the keys that are present (the order in which the loop meets
  the keys does not matter to a conjunction).
\<close>

definition is_true :: "check_spec \<Rightarrow> observation list \<Rightarrow> bool list" where
  "is_true chk df =
     map (\<lambda>r. (case up chk of None \<Rightarrow> True | Some u \<Rightarrow> val r \<le> u) \<and>
               (case lo chk of None \<Rightarrow> True | Some l \<Rightarrow> val r > l)) df"

text \<open>
  What \<open>check\<close> returns: for a single year the distinct (model, scenario, year) rows
  keyed by (model, scenario); otherwise a frame that has only an index of (model,
  scenario) keys; with \<open>ret_true=False\<close> the rows that fail.
\<close>

datatype check_result =
    By_year "(entity \<times> int) list"
  | Index "entity list"
  | Failed "observation list"

text \<open>
  Lines 270 to 284, on the selected rows.  \<open>groupby(...).count()\<close> gives, for every
  (model, scenario) among the satisfying rows, the number of those rows; \<open>num_yr\<close> is
  the number of distinct years of the whole selection.
\<close>

definition check_rows :: "check_spec \<Rightarrow> observation list \<Rightarrow> bool \<Rightarrow> check_result" where
  "check_rows chk df ret_true =
     (let sat = map fst (filter snd (zip df (is_true chk df)))
      in if ret_true then
           (case check_year chk of
              Some (PInt y) \<Rightarrow> By_year (remdups (map (\<lambda>r. (entity_of r, year r)) sat))
            | _ \<Rightarrow>
                (let num_yr = length (remdups (map year df));
                     groups = remdups (map entity_of sat)
                 in Index (filter (\<lambda>k. length (filter (\<lambda>r. entity_of r = k) sat) = num_yr)
                             groups)))
         else Failed (map fst (filter (\<lambda>(r, b). \<not> b) (zip df (is_true chk df)))))"

text \<open>
  \<open>check\<close>, lines 254 to 284.  The caller's dictionary is an object that the assignments
  of lines 257 and 258 update in place unless line 255 has rebound the name to a new
  dictionary, so the function returns, beside its outcome, the caller's dictionary as it
  is after the call.
\<close>

definition check ::
  "iamdf \<Rightarrow> string \<Rightarrow> check_spec \<Rightarrow> filters option \<Rightarrow> bool
     \<Rightarrow> (error + check_result) \<times> filters option" where
  "check self var chk filters ret_true =
     (let fresh = (case filters of None \<Rightarrow> True | Some f \<Rightarrow> f = []);
          f0 = (case filters of None \<Rightarrow> [] | Some f \<Rightarrow> f);
          f1 = (case check_year chk of None \<Rightarrow> f0 | Some y \<Rightarrow> AList.update ''year'' y f0);
          f2 = AList.update ''variable'' (PStr var) f1
      in ((case select self f2 of
             Inl e \<Rightarrow> Inl e
           | Inr df \<Rightarrow> Inr (check_rows chk df ret_true)),
          (if fresh then filters else Some f2)))"

section \<open>The category manager\<close>

text \<open>The index of the frame that \<open>check\<close> returns in satisfying mode.\<close>

fun index_of :: "check_result \<Rightarrow> entity list" where
  "index_of (By_year rows) = map fst rows"
| "index_of (Index ks) = ks"
| "index_of (Failed rows) = []"

text \<open>
  The argument \<open>display\<close>: the strings \<open>'list'\<close> and \<open>'pivot'\<close>, \<open>None\<close>, or another
  value that counts as true (the default is the builtin \<open>list\<close>, which is neither
  string).  What \<open>category\<close> returns: the frame of keys, its pivot view (built by the
  presentation layer), or nothing.
\<close>

datatype display = Display_list | Display_pivot | Display_none | Display_other

datatype view = Frame "entity list" | Pivot "entity list" | Nothing

record category_out =
  printed :: "string list"
  returned :: view

definition view_of :: "display \<Rightarrow> entity list \<Rightarrow> view" where
  "view_of d ks =
     (if d = Display_list then Frame ks else if d = Display_pivot then Pivot ks else Nothing)"

text \<open>
  Lines 214 to 217: \<open>cat\<close> starts as the index of \<open>self.cat\<close> and is intersected with
  the index of every check; every call of \<open>check\<close> gets the same \<open>filters\<close> object.
\<close>

fun category_loop ::
  "iamdf \<Rightarrow> (string \<times> check_spec) list \<Rightarrow> filters option \<Rightarrow> entity list
     \<Rightarrow> (error + entity list) \<times> filters option" where
  "category_loop self [] filters ks = (Inr ks, filters)"
| "category_loop self ((var, chk) # criteria) filters ks =
     (case check self var chk filters True of
        (Inl e, filters') \<Rightarrow> (Inl e, filters')
      | (Inr r, filters') \<Rightarrow>
          category_loop self criteria filters' (filter (\<lambda>k. k \<in> set (index_of r)) ks))"

text \<open>Line 223: \<open>self.cat.loc[cat, 'category'] = name\<close>.\<close>

definition assign_category ::
  "entity list \<Rightarrow> string \<Rightarrow> (entity \<times> string option) list \<Rightarrow> (entity \<times> string option) list" where
  "assign_category ks name tab = map (\<lambda>(k, c). if k \<in> set ks then (k, Some name) else (k, c)) tab"

text \<open>
  \<open>category\<close>, lines 206 to 234: the outcome, the frame after the call and the
  caller's filter dictionary after the call.  Without criteria the table is read; with
  \<open>criteria=None\<close> and an empty name the source fails on \<open>criteria.items()\<close>.
\<close>

definition category ::
  "iamdf \<Rightarrow> string \<Rightarrow> (string \<times> check_spec) list option \<Rightarrow> filters option \<Rightarrow> bool \<Rightarrow> display
     \<Rightarrow> (error + category_out) \<times> iamdf \<times> filters option" where
  "category self name criteria filters assign disp =
     (if name \<noteq> [] \<and> (criteria = None \<or> criteria = Some []) then
        (Inr \<lparr>printed = [],
              returned = view_of disp (map fst (filter (\<lambda>(k, c). c = Some name) (cat self)))\<rparr>,
         self, filters)
      else
        (case criteria of
           None \<Rightarrow> (Inl AttributeError, self, filters)
         | Some crit \<Rightarrow>
             (case category_loop self crit filters (map fst (cat self)) of
                (Inl e, filters') \<Rightarrow> (Inl e, self, filters')
              | (Inr ks, filters') \<Rightarrow>
                  (if ks \<noteq> [] then
                     (Inr \<lparr>printed =
                             (if disp \<noteq> Display_none
                              then [''The following scenarios are categorized as '' @ [CHR 0x27]
                                      @ name @ [CHR 0x27] @ '':'']
                              else []),
                           returned = (if disp \<noteq> Display_none then view_of disp ks else Nothing)\<rparr>,
                      (if assign then self\<lparr>cat := assign_category ks name (cat self)\<rparr> else self),
                      filters')
                   else
                     (Inr \<lparr>printed = [''No scenario satisfies the criteria''],
                           returned = Nothing\<rparr>,
                      self, filters')))))"

section \<open>Vocabulary of the statements\<close>


text \<open>The axes that \<open>select\<close> filters by.\<close>

definition known_axes :: "string set" where
  "known_axes = {''model'', ''scenario'', ''region'', ''variable'', ''year''}"

text \<open>A row, for the examples.\<close>

definition obs ::
  "string \<Rightarrow> string \<Rightarrow> string \<Rightarrow> string \<Rightarrow> string \<Rightarrow> int \<Rightarrow> real \<Rightarrow> observation" where
  "obs m s r v u y x =
     \<lparr>model = m, scenario = s, region = r, variable = v, unit = u, year = y, val = x\<rparr>"

text \<open>
  The example of the specification: one model and scenario, one region, the variable
  \<open>V\<close> with 5 in 2010 and 15 in 2020.
\<close>

definition two_years :: iamdf where
  "two_years = IamDataFrame
     [obs ''m1'' ''s1'' ''r1'' ''V'' ''u'' 2010 5,
      obs ''m1'' ''s1'' ''r1'' ''V'' ''u'' 2020 15]"

text \<open>
  Two regions for the same model, scenario and variable over four years.  In the first
  frame every value is below 10; in the second the value of 2040 is above 10 and the
  second region has a row for 2010 only.
\<close>

definition two_regions_all_pass :: iamdf where
  "two_regions_all_pass = IamDataFrame
     [obs ''m1'' ''s1'' ''r1'' ''V'' ''u'' 2010 5, obs ''m1'' ''s1'' ''r1'' ''V'' ''u'' 2020 5,
      obs ''m1'' ''s1'' ''r1'' ''V'' ''u'' 2030 5, obs ''m1'' ''s1'' ''r1'' ''V'' ''u'' 2040 5,
      obs ''m1'' ''s1'' ''r2'' ''V'' ''u'' 2010 5, obs ''m1'' ''s1'' ''r2'' ''V'' ''u'' 2020 5,
      obs ''m1'' ''s1'' ''r2'' ''V'' ''u'' 2030 5, obs ''m1'' ''s1'' ''r2'' ''V'' ''u'' 2040 5]"

definition two_regions_one_fail :: iamdf where
  "two_regions_one_fail = IamDataFrame
     [obs ''m1'' ''s1'' ''r1'' ''V'' ''u'' 2010 5, obs ''m1'' ''s1'' ''r1'' ''V'' ''u'' 2020 5,
      obs ''m1'' ''s1'' ''r1'' ''V'' ''u'' 2030 5, obs ''m1'' ''s1'' ''r1'' ''V'' ''u'' 2040 15,
      obs ''m1'' ''s1'' ''r2'' ''V'' ''u'' 2010 5]"

text \<open>
  One model and scenario, one region, two variables: \<open>V\<close> stays at 5, \<open>W\<close> is 5 in
  2010 and 15 in 2020.
\<close>

definition two_variables :: iamdf where
  "two_variables = IamDataFrame
     [obs ''m1'' ''s1'' ''r1'' ''V'' ''u'' 2010 5, obs ''m1'' ''s1'' ''r1'' ''V'' ''u'' 2020 5,
      obs ''m1'' ''s1'' ''r1'' ''W'' ''u'' 2010 5, obs ''m1'' ''s1'' ''r1'' ''W'' ''u'' 2020 15]"

text \<open>Checks for the examples.\<close>

definition up10_in_2010 :: check_spec where
  "up10_in_2010 = \<lparr>up = Some 10, lo = None, check_year = Some (PInt 2010)\<rparr>"

definition lo0_in_2010 :: check_spec where
  "lo0_in_2010 = \<lparr>up = None, lo = Some 0, check_year = Some (PInt 2010)\<rparr>"

definition up10 :: check_spec where
  "up10 = \<lparr>up = Some 10, lo = None, check_year = None\<rparr>"

text \<open>A row satisfies a check: the condition that \<open>is_true\<close> evaluates row by row.\<close>

definition satisfies :: "check_spec \<Rightarrow> observation \<Rightarrow> bool" where
  "satisfies chk r =
     ((case up chk of None \<Rightarrow> True | Some u \<Rightarrow> val r \<le> u) \<and>
      (case lo chk of None \<Rightarrow> True | Some l \<Rightarrow> val r > l))"

text \<open>
  The value of \<open>cat\<close> after the loop of \<open>category\<close>: the keys that qualify, or the
  error a check raised.
\<close>

definition qualifying ::
  "iamdf \<Rightarrow> (string \<times> check_spec) list \<Rightarrow> filters option \<Rightarrow> error + entity list" where
  "qualifying self crit filters = fst (category_loop self crit filters (map fst (cat self)))"

section \<open>Auxiliary facts\<close>

lemma cons_ok_Inr [simp]: "cons_ok x (Inr xs) = Inr (x # xs)"
  by (simp add: cons_ok_def)

lemma cons_ok_Inl [simp]: "cons_ok x (Inl e) = Inl e"
  by (simp add: cons_ok_def)

subsection \<open>Patterns without special characters\<close>







subsection \<open>The mask of one filter string\<close>





subsection \<open>Rows kept by a mask\<close>

lemma keep_rows: "map fst (filter snd (zip df (map P df))) = filter P df"
  by (induction df) auto

lemma drop_rows: "map fst (filter (\<lambda>(r, b). \<not> b) (zip df (map P df))) = filter (\<lambda>r. \<not> P r) df"
  by (induction df) auto

subsection \<open>The loop of \<open>select\<close>\<close>

lemma select_loop_error:
  "(col, v) \<in> set fs \<Longrightarrow> keep_col_for d col v = Inl e0 \<Longrightarrow> \<exists>e. select_loop d fs keep = Inl e"
proof (induction fs arbitrary: keep)
  case Nil
  then show ?case by simp
next
  case (Cons f fs)
  obtain c w where f: "f = (c, w)" by (cases f)
  show ?case
  proof (cases "keep_col_for d c w")
    case (Inl e)
    then show ?thesis by (simp add: f)
  next
    case (Inr m)
    with Cons.prems have "(col, v) \<in> set fs" by (auto simp: f)
    from Cons.IH [OF this Cons.prems(2)] show ?thesis by (simp add: f Inr)
  qed
qed

lemma keep_col_for_unknown:
  "col \<notin> known_axes \<Longrightarrow>
   keep_col_for d col v = Inl (SystemError (''filter by column '' @ col @ '' not supported''))"
  by (simp add: keep_col_for_def known_axes_def)

lemma update_keeps_other:
  "(col, v) \<in> set fs \<Longrightarrow> k \<noteq> col \<Longrightarrow> (col, v) \<in> set (AList.update k x fs)"
  by (induction fs) auto










subsection \<open>What \<open>check\<close> reads and writes\<close>

lemma select_cat_independent [simp]: "select (self\<lparr>cat := c\<rparr>) fs = select self fs"
  by (simp add: select_def select_keep_def split: sum.splits)

lemma check_cat_independent [simp]:
  "check (self\<lparr>cat := c\<rparr>) var chk filters ret_true = check self var chk filters ret_true"
  by (simp add: check_def Let_def)

lemma check_caller_filters:
  "snd (check self var chk filters ret_true) =
     (case filters of
        None \<Rightarrow> None
      | Some f \<Rightarrow>
          if f = [] then Some []
          else Some (AList.update ''variable'' (PStr var)
                       (case check_year chk of None \<Rightarrow> f | Some y \<Rightarrow> AList.update ''year'' y f)))"
  by (simp add: check_def Let_def split: option.splits)

lemma check_fresh_filters:
  "filters = None \<or> filters = Some [] \<Longrightarrow> snd (check self v c filters ret_true) = filters"
  by (auto simp: check_caller_filters)

subsection \<open>The multi-year branch of \<open>check\<close>\<close>

text \<open>
  When the selection holds at most one row for every (model, scenario) pair and year,
  counting the satisfying rows of a pair counts its satisfying years, and the pairs
  returned are those that have a satisfying row in every year of the selection.
\<close>

lemma is_true_satisfies: "is_true chk df = map (satisfies chk) df"
  by (simp add: is_true_def satisfies_def)

lemma check_rows_multi:
  assumes "\<forall>y. check_year chk \<noteq> Some (PInt y)"
  shows "check_rows chk df True =
     Index (filter (\<lambda>k. length (filter (\<lambda>r. entity_of r = k) (filter (satisfies chk) df))
                          = length (remdups (map year df)))
              (remdups (map entity_of (filter (satisfies chk) df))))"
  using assms
  by (simp add: check_rows_def is_true_satisfies keep_rows Let_def
        split: option.splits pyval.splits)

lemma rows_of_entity_distinct_years:
  assumes "distinct (map (\<lambda>r. (entity_of r, year r)) df)"
  shows "distinct (map year (filter (\<lambda>r. entity_of r = k \<and> P r) df))"
  using assms
proof (induction df)
  case Nil
  show ?case by simp
next
  case (Cons r df)
  then show ?case by (auto simp: image_iff)
qed

lemma check_rows_every_year:
  assumes uniq: "distinct (map (\<lambda>r. (entity_of r, year r)) df)"
    and multi: "\<forall>y. check_year chk \<noteq> Some (PInt y)"
  shows "\<exists>ks. check_rows chk df True = Index ks \<and>
           set ks = {k \<in> entity_of ` set df.
                      \<forall>y \<in> year ` set df. \<exists>r \<in> set df. entity_of r = k \<and> year r = y \<and> satisfies chk r}"
proof -
  define Y where "Y = year ` set df"
  define rows where "rows k = filter (\<lambda>r. entity_of r = k \<and> satisfies chk r) df" for k
  have len: "length (filter (\<lambda>r. entity_of r = k) (filter (satisfies chk) df)) = card (year ` set (rows k))"
    for k
  proof -
    have "filter (\<lambda>r. entity_of r = k) (filter (satisfies chk) df) = rows k"
      by (simp add: rows_def conj_commute)
    moreover have "distinct (map year (rows k))"
      unfolding rows_def using rows_of_entity_distinct_years [OF uniq] .
    then have "card (set (map year (rows k))) = length (map year (rows k))"
      by (rule distinct_card)
    ultimately show ?thesis by simp
  qed
  have num: "length (remdups (map year df)) = card Y"
    by (simp add: Y_def length_remdups_card_conv)
  have sub: "year ` set (rows k) \<subseteq> Y" for k
    by (auto simp: rows_def Y_def)
  have eq: "(card (year ` set (rows k)) = card Y) = (year ` set (rows k) = Y)" for k
    using sub [of k] card_subset_eq [of Y "year ` set (rows k)"] by (auto simp: Y_def)
  have "set (filter (\<lambda>k. length (filter (\<lambda>r. entity_of r = k) (filter (satisfies chk) df))
                          = length (remdups (map year df)))
              (remdups (map entity_of (filter (satisfies chk) df))))
        = {k \<in> entity_of ` set df.
             \<forall>y \<in> year ` set df. \<exists>r \<in> set df. entity_of r = k \<and> year r = y \<and> satisfies chk r}"
    (is "?L = ?R")
  proof (rule set_eqI)
    fix k
    have "k \<in> ?L \<longleftrightarrow>
            k \<in> set (remdups (map entity_of (filter (satisfies chk) df))) \<and>
            length (filter (\<lambda>r. entity_of r = k) (filter (satisfies chk) df))
              = length (remdups (map year df))"
      by (simp only: set_filter mem_Collect_eq)
    also have "\<dots> \<longleftrightarrow>
            k \<in> set (remdups (map entity_of (filter (satisfies chk) df))) \<and>
            year ` set (rows k) = Y"
      by (simp only: len num eq)
    also have "\<dots> \<longleftrightarrow>
            (\<exists>r \<in> set df. satisfies chk r \<and> entity_of r = k) \<and> year ` set (rows k) = Y"
      by auto
    also have "\<dots> \<longleftrightarrow> k \<in> ?R"
    proof
      assume h: "(\<exists>r \<in> set df. satisfies chk r \<and> entity_of r = k) \<and> year ` set (rows k) = Y"
      then have "k \<in> entity_of ` set df" by auto
      moreover have "\<exists>r \<in> set df. entity_of r = k \<and> year r = y \<and> satisfies chk r"
        if "y \<in> year ` set df" for y
      proof -
        from that h have "y \<in> year ` set (rows k)" by (simp add: Y_def)
        then show ?thesis by (auto simp: rows_def)
      qed
      ultimately show "k \<in> ?R" by blast
    next
      assume h: "k \<in> ?R"
      then obtain r0 where r0: "r0 \<in> set df" "entity_of r0 = k" by auto
      with h obtain r where "r \<in> set df" "entity_of r = k" "satisfies chk r" by blast
      then have "\<exists>r \<in> set df. satisfies chk r \<and> entity_of r = k" by blast
      moreover have "year ` set (rows k) = Y"
      proof
        show "year ` set (rows k) \<subseteq> Y" by (rule sub)
        show "Y \<subseteq> year ` set (rows k)"
        proof
          fix y assume "y \<in> Y"
          with h obtain r where "r \<in> set df" "entity_of r = k" "year r = y" "satisfies chk r"
            by (auto simp: Y_def)
          then show "y \<in> year ` set (rows k)" by (force simp: rows_def)
        qed
      qed
      ultimately show "(\<exists>r \<in> set df. satisfies chk r \<and> entity_of r = k) \<and> year ` set (rows k) = Y"
        by blast
    qed
    finally show "k \<in> ?L \<longleftrightarrow> k \<in> ?R" .
  qed
  then show ?thesis by (simp add: check_rows_multi [OF multi])
qed

subsection \<open>The loop and the branches of \<open>category\<close>\<close>

lemma IamDataFrame_keys_distinct: "distinct (map fst (cat (IamDataFrame d)))"
  by (simp add: IamDataFrame_def comp_def)

lemma category_loop_cat_independent [simp]:
  "category_loop (self\<lparr>cat := c\<rparr>) crit filters ks = category_loop self crit filters ks"
proof (induction crit arbitrary: filters ks)
  case Nil
  show ?case by simp
next
  case (Cons vc crit)
  obtain v ch where vc: "vc = (v, ch)" by (cases vc)
  show ?case
    by (cases "check self v ch filters True") (simp add: vc Cons.IH split: sum.splits)
qed

lemma category_loop_subset:
  "category_loop self crit filters ks = (Inr ks', f') \<Longrightarrow> set ks' \<subseteq> set ks"
proof (induction crit arbitrary: filters ks)
  case Nil
  then show ?case by simp
next
  case (Cons vc crit)
  obtain v c where vc: "vc = (v, c)" by (cases vc)
  from Cons.prems obtain r g where
    "category_loop self crit g (filter (\<lambda>k. k \<in> set (index_of r)) ks) = (Inr ks', f')"
    by (auto simp: vc split: prod.splits sum.splits)
  from Cons.IH [OF this] show ?case by auto
qed

lemma map_fst_assign_category [simp]: "map fst (assign_category ks name tab) = map fst tab"
  by (induction tab) (auto simp: assign_category_def)

lemma assign_category_idem [simp]:
  "assign_category ks name (assign_category ks name tab) = assign_category ks name tab"
  by (induction tab) (auto simp: assign_category_def)

lemma assign_category_label:
  "k \<in> set ks \<Longrightarrow> (k, l) \<in> set (assign_category ks name tab) \<Longrightarrow> l = Some name"
  by (induction tab) (auto simp: assign_category_def split: if_splits)


lemma category_read:
  "name \<noteq> [] \<Longrightarrow> crit = None \<or> crit = Some [] \<Longrightarrow>
   category self name crit filters assign disp
     = (Inr \<lparr>printed = [],
             returned = view_of disp (map fst (filter (\<lambda>(k, c). c = Some name) (cat self)))\<rparr>,
        self, filters)"
  by (simp add: category_def)

lemma category_no_criteria:
  "name = [] \<Longrightarrow> category self name None filters assign disp = (Inl AttributeError, self, filters)"
  by (simp add: category_def)

lemma category_raises:
  "\<not> (name \<noteq> [] \<and> cr = []) \<Longrightarrow>
   category_loop self cr filters (map fst (cat self)) = (Inl e, g) \<Longrightarrow>
   category self name (Some cr) filters assign disp = (Inl e, self, g)"
  by (simp add: category_def)

lemma category_empty:
  "\<not> (name \<noteq> [] \<and> cr = []) \<Longrightarrow>
   category_loop self cr filters (map fst (cat self)) = (Inr [], g) \<Longrightarrow>
   category self name (Some cr) filters assign disp
     = (Inr \<lparr>printed = [''No scenario satisfies the criteria''], returned = Nothing\<rparr>, self, g)"
  by (simp add: category_def)

lemma category_nonempty:
  "\<not> (name \<noteq> [] \<and> cr = []) \<Longrightarrow>
   category_loop self cr filters (map fst (cat self)) = (Inr ks, g) \<Longrightarrow> ks \<noteq> [] \<Longrightarrow>
   category self name (Some cr) filters assign disp
     = (Inr \<lparr>printed =
               (if disp \<noteq> Display_none
                then [''The following scenarios are categorized as '' @ [CHR 0x27]
                        @ name @ [CHR 0x27] @ '':'']
                else []),
             returned = (if disp \<noteq> Display_none then view_of disp ks else Nothing)\<rparr>,
        (if assign then self\<lparr>cat := assign_category ks name (cat self)\<rparr> else self), g)"
  by (auto simp: category_def)

lemma category_assigns:
  assumes "qualifying self crit filters = Inr ks" and "crit \<noteq> []" and "ks \<noteq> []"
    and "category self name (Some crit) filters True disp = (r, self', g)"
  shows "cat self' = assign_category ks name (cat self)"
proof -
  obtain h where "category_loop self crit filters (map fst (cat self)) = (Inr ks, h)"
    using assms(1) by (cases "category_loop self crit filters (map fst (cat self))")
      (simp add: qualifying_def)
  from category_nonempty [where name = name and assign = True and disp = disp, OF _ this assms(3)] assms(2,4)
  show ?thesis by auto
qed

lemma qualifying_keys:
  assumes "qualifying self crit filters = Inr ks"
  shows "set ks \<subseteq> fst ` set (cat self)"
proof -
  obtain h where "category_loop self crit filters (map fst (cat self)) = (Inr ks, h)"
    using assms by (cases "category_loop self crit filters (map fst (cat self))")
      (simp add: qualifying_def)
  from category_loop_subset [OF this] show ?thesis by simp
qed

lemma category_loop_fresh:
  assumes "filters = None \<or> filters = Some []"
    and "\<forall>(v, c) \<in> set crit. \<exists>r. fst (check self v c filters True) = Inr r"
  shows "\<exists>ks'. category_loop self crit filters ks = (Inr ks', filters) \<and>
           set ks' = {k \<in> set ks. \<forall>(v, c) \<in> set crit.
                        \<forall>r. fst (check self v c filters True) = Inr r \<longrightarrow> k \<in> set (index_of r)}"
  using assms(2)
proof (induction crit arbitrary: ks)
  case Nil
  show ?case by simp
next
  case (Cons vc crit)
  obtain v c where vc: "vc = (v, c)" by (cases vc)
  from Cons.prems obtain r where r: "fst (check self v c filters True) = Inr r"
    by (auto simp: vc)
  have chk: "check self v c filters True = (Inr r, filters)"
    using r check_fresh_filters [OF assms(1), of self v c True]
    by (cases "check self v c filters True") simp
  from Cons.prems have "\<forall>(v, c) \<in> set crit. \<exists>r. fst (check self v c filters True) = Inr r"
    by simp
  from Cons.IH [OF this, of "filter (\<lambda>k. k \<in> set (index_of r)) ks"]
  obtain ks' where ks': "category_loop self crit filters (filter (\<lambda>k. k \<in> set (index_of r)) ks)
       = (Inr ks', filters)"
    and set: "set ks' = {k \<in> set (filter (\<lambda>k. k \<in> set (index_of r)) ks).
                \<forall>(v, c) \<in> set crit.
                  \<forall>r. fst (check self v c filters True) = Inr r \<longrightarrow> k \<in> set (index_of r)}"
    by blast
  have "category_loop self (vc # crit) filters ks = (Inr ks', filters)"
    by (simp add: vc chk ks')
  moreover have "set ks' = {k \<in> set ks. \<forall>(v, c) \<in> set (vc # crit).
                        \<forall>r. fst (check self v c filters True) = Inr r \<longrightarrow> k \<in> set (index_of r)}"
    using set r by (auto simp: vc)
  ultimately show ?case by blast
qed

subsection \<open>Running the examples\<close>

lemmas run_defs =
  check_def check_rows_def is_true_def select_def select_keep_def keep_col_for_def
  keep_col_match_def keep_col_yr_def pseudo_regex_of_def replace_def re_compile_def re_match_def
  backslash_def linefeed_def outside_fragment_def plain_token_def ascii_alnum_def entity_of_def
  obs_def IamDataFrame_def Let_def

lemmas run_category_defs =
  run_defs two_years_def category_def assign_category_def view_of_def qualifying_def
  up10_in_2010_def lo0_in_2010_def up10_def

section \<open>The claims\<close>






text \<open>
  C3: the mask of \<open>check\<close> is the conjunction of \<open>value <= up\<close> and \<open>value > lo\<close>
  for the bounds that are present.  A row whose value equals the upper bound satisfies
  the check (when the lower bound, if there is one, lies below it); a row whose value
  equals the lower bound does not.
\<close>

theorem bounds_inclusive_up_exclusive_lo:
  "is_true chk df
     = map (\<lambda>r. (\<forall>U. up chk = Some U \<longrightarrow> val r \<le> U) \<and> (\<forall>L. lo chk = Some L \<longrightarrow> L < val r)) df \<and>
   (up chk = Some U \<and> val r = U \<longrightarrow>
      (is_true chk [r] = [True]) = (\<forall>L. lo chk = Some L \<longrightarrow> L < U)) \<and>
   (lo chk = Some L \<and> val r = L \<longrightarrow> is_true chk [r] = [False]) \<and>
   (up chk = Some U \<and> lo chk = Some L \<longrightarrow> is_true chk df = map (\<lambda>r. val r \<le> U \<and> L < val r) df)"
  by (auto simp: is_true_def split: option.splits)

theorem bounds_inclusive_up_exclusive_lo_witness:
  "is_true \<lparr>up = Some 10, lo = Some 5, check_year = None\<rparr>
     [obs ''m'' ''s'' ''r'' ''V'' ''u'' 2010 10, obs ''m'' ''s'' ''r'' ''V'' ''u'' 2020 5,
      obs ''m'' ''s'' ''r'' ''V'' ''u'' 2030 7]
   = [True, False, True]"
  using bounds_inclusive_up_exclusive_lo
    [of "\<lparr>up = Some 10, lo = Some 5, check_year = None\<rparr>"
        "[obs ''m'' ''s'' ''r'' ''V'' ''u'' 2010 10, obs ''m'' ''s'' ''r'' ''V'' ''u'' 2020 5,
          obs ''m'' ''s'' ''r'' ''V'' ''u'' 2030 7]" 10 "obs ''m'' ''s'' ''r'' ''V'' ''u'' 2010 10" 5]
  by (simp add: obs_def)

text \<open>
  C9: when the filter dictionary holds an axis that is not one of model, scenario,
  region, variable and year, \<open>select\<close> raises and returns no rows, whatever the other
  entries are; alone, the entry raises the \<open>SystemError\<close> that names the column; and
  \<open>check\<close>, which passes its filters on to \<open>select\<close>, raises as well.
\<close>

theorem select_unknown_axis:
  assumes "(col, v) \<in> set fs" and "col \<notin> known_axes"
  shows "(\<exists>e. select_keep self fs = Inl e \<and> select self fs = Inl e) \<and>
         select self [(col, v)] = Inl (SystemError (''filter by column '' @ col @ '' not supported'')) \<and>
         (\<exists>e. fst (check self var chk (Some fs) ret_true) = Inl e)"
proof -
  note unk = keep_col_for_unknown [OF assms(2)]
  have loop: "\<exists>e. select_loop (data self) gs keep = Inl e" if "(col, v) \<in> set gs" for gs keep
    using select_loop_error [OF that unk] .
  have 1: "\<exists>e. select_keep self fs = Inl e \<and> select self fs = Inl e"
  proof -
    from loop [OF assms(1)] obtain e
      where "select_loop (data self) fs (replicate (length (data self)) True) = Inl e"
      by blast
    then show ?thesis by (simp add: select_keep_def select_def)
  qed
  have 2: "select self [(col, v)] = Inl (SystemError (''filter by column '' @ col @ '' not supported''))"
    by (simp add: select_def select_keep_def unk)
  have ne: "col \<noteq> ''year''" "col \<noteq> ''variable''" "fs \<noteq> []"
    using assms by (auto simp: known_axes_def)
  define gs where "gs = AList.update ''variable'' (PStr var)
      (case check_year chk of None \<Rightarrow> fs | Some y \<Rightarrow> AList.update ''year'' y fs)"
  have "(col, v) \<in> set gs"
    unfolding gs_def using assms(1) ne
    by (auto split: option.splits intro!: update_keeps_other)
  from loop [OF this] obtain e
    where "select_loop (data self) gs (replicate (length (data self)) True) = Inl e"
    by blast
  then have "select self gs = Inl e"
    by (simp add: select_keep_def select_def)
  then have 3: "\<exists>e. fst (check self var chk (Some fs) ret_true) = Inl e"
    by (simp add: check_def gs_def Let_def)
  from 1 2 3 show ?thesis by blast
qed

theorem select_unknown_axis_witness:
  "select \<lparr>data = [], cat = []\<rparr> [(''region'', PStr ''World''), (''unit'', PStr ''EJ/yr'')]
     = Inl (SystemError ''filter by column unit not supported'')"
proof -
  have "\<exists>e. select \<lparr>data = [], cat = []\<rparr> [(''region'', PStr ''World''), (''unit'', PStr ''EJ/yr'')] = Inl e"
    using select_unknown_axis [of "''unit''" "PStr ''EJ/yr''" "[(''region'', PStr ''World''), (''unit'', PStr ''EJ/yr'')]" "\<lparr>data = [], cat = []\<rparr>"]
    by (simp add: known_axes_def) blast
  then show ?thesis
    by (simp add: select_def select_keep_def keep_col_for_def keep_col_match_def re_compile_def
          backslash_def outside_fragment_def plain_token_def)
qed



text \<open>
  C1, evaluated on the source.  The claim reads: without a single-year constraint,
  \<open>check\<close> returns the (model, scenario) pairs whose number of distinct satisfying
  years equals the number of distinct years of the selection.  Line 281 counts the
  satisfying rows of a pair, not its distinct years (the single-year branch removes
  duplicates, this branch does not).  With two regions and every value below the bound
  in all four years, the pair has eight satisfying rows and is not returned; with a
  value above the bound in 2040 and one row of a second region, the pair has four
  satisfying rows and is returned.
\<close>

theorem check_counts_rows:
  "check two_regions_all_pass ''V'' \<lparr>up = Some 10, lo = None, check_year = None\<rparr> None True
     = (Inr (Index []), None) \<and>
   check two_regions_one_fail ''V'' \<lparr>up = Some 10, lo = None, check_year = None\<rparr> None True
     = (Inr (Index [(''m1'', ''s1'')]), None)"
  by (simp add: run_defs two_regions_all_pass_def two_regions_one_fail_def)

text \<open>
  C4, evaluated on the source.  The claim reads: \<open>check\<close> leaves the caller's filter
  specification unchanged.  That holds when the caller passes none or an empty one
  (\<open>check_fresh_filters\<close>); a dictionary that is not empty is updated in place by
  lines 257 and 258 and holds the year and the variable of the check after the call,
  and \<open>category\<close> hands the same dictionary to every check.
\<close>

theorem check_updates_caller_filters:
  "check two_years ''V'' up10_in_2010 (Some [(''region'', PStr ''r1'')]) True
     = (Inr (By_year [((''m1'', ''s1''), 2010)]),
        Some [(''region'', PStr ''r1''), (''year'', PInt 2010), (''variable'', PStr ''V'')]) \<and>
   snd (snd (category two_years ''X'' (Some [(''V'', up10_in_2010)])
               (Some [(''region'', PStr ''r1'')]) True Display_list))
     = Some [(''region'', PStr ''r1''), (''year'', PInt 2010), (''variable'', PStr ''V'')]"
  by (simp add: run_category_defs)

text \<open>
  The year of one criterion stays in the caller's dictionary for the next criterion:
  \<open>W\<close> exceeds the bound in 2020, so without filters nothing qualifies, while with a
  region filter the check of \<open>W\<close> only sees 2010, the year of the check of \<open>V\<close>.
\<close>

lemma category_year_carried_over:
  "fst (category two_variables ''X'' (Some [(''V'', up10_in_2010), (''W'', up10)]) None True
          Display_list)
     = Inr \<lparr>printed = [''No scenario satisfies the criteria''], returned = Nothing\<rparr> \<and>
   fst (snd (category two_variables ''X'' (Some [(''V'', up10_in_2010), (''W'', up10)])
               (Some [(''region'', PStr ''r1'')]) True Display_list))
     = two_variables\<lparr>cat := [((''m1'', ''s1''), Some ''X'')]\<rparr>"
  by (simp add: run_category_defs two_variables_def)

text \<open>
  C5: when \<open>category\<close> with name \<open>A\<close> qualifies the key \<open>K\<close> and a later call with
  name \<open>B\<close> qualifies it again, every row of the table for \<open>K\<close> carries \<open>A\<close> after
  the first call and \<open>B\<close> after the second; the keys of the table do not change, so a
  table with one row per key (as \<open>IamDataFrame\<close> builds it) maps \<open>K\<close> to \<open>B\<close> alone.
\<close>

theorem category_overwrite:
  assumes "qualifying self critA fA = Inr ksA" and "K \<in> set ksA" and "critA \<noteq> []"
    and "category self A (Some critA) fA True dA = (rA, self1, gA)"
    and "qualifying self1 critB fB = Inr ksB" and "K \<in> set ksB" and "critB \<noteq> []"
    and "category self1 B (Some critB) fB True dB = (rB, self2, gB)"
  shows "K \<in> fst ` set (cat self2) \<and>
         (\<forall>l. (K, l) \<in> set (cat self1) \<longrightarrow> l = Some A) \<and>
         (\<forall>l. (K, l) \<in> set (cat self2) \<longrightarrow> l = Some B) \<and>
         map fst (cat self2) = map fst (cat self) \<and>
         (distinct (map fst (cat self)) \<longrightarrow> map_of (cat self2) K = Some (Some B))"
proof -
  have neA: "ksA \<noteq> []" and neB: "ksB \<noteq> []" using assms(2,6) by auto
  have c1: "cat self1 = assign_category ksA A (cat self)"
    using category_assigns [OF assms(1,3) neA assms(4)] .
  have c2: "cat self2 = assign_category ksB B (cat self1)"
    using category_assigns [OF assms(5,7) neB assms(8)] .
  have keys: "map fst (cat self2) = map fst (cat self)" by (simp add: c1 c2)
  have "K \<in> set (map fst (cat self))"
    using qualifying_keys [OF assms(1)] assms(2) by auto
  then have K: "K \<in> fst ` set (cat self2)"
    using keys by (metis list.set_map)
  have A: "\<forall>l. (K, l) \<in> set (cat self1) \<longrightarrow> l = Some A"
    using assign_category_label [OF assms(2)] by (auto simp: c1)
  have B: "\<forall>l. (K, l) \<in> set (cat self2) \<longrightarrow> l = Some B"
    using assign_category_label [OF assms(6)] by (auto simp: c2)
  have "map_of (cat self2) K = Some (Some B)" if "distinct (map fst (cat self))"
  proof -
    from K obtain l where l: "(K, l) \<in> set (cat self2)" by auto
    with B have "(K, Some B) \<in> set (cat self2)" by blast
    moreover have "distinct (map fst (cat self2))" using that keys by simp
    ultimately show ?thesis by simp
  qed
  with K A B keys show ?thesis by blast
qed

theorem category_overwrite_witness:
  "map_of (cat (two_years\<lparr>cat := [((''m1'', ''s1''), Some ''B'')]\<rparr>)) (''m1'', ''s1'')
     = Some (Some ''B'') \<and>
   category (two_years\<lparr>cat := [((''m1'', ''s1''), Some ''A'')]\<rparr>) ''B''
     (Some [(''V'', lo0_in_2010)]) None True Display_none
     = (Inr \<lparr>printed = [], returned = Nothing\<rparr>,
        two_years\<lparr>cat := [((''m1'', ''s1''), Some ''B'')]\<rparr>, None)"
proof -
  let ?s1 = "two_years\<lparr>cat := [((''m1'', ''s1''), Some ''A'')]\<rparr>"
  let ?s2 = "two_years\<lparr>cat := [((''m1'', ''s1''), Some ''B'')]\<rparr>"
  have qa: "qualifying two_years [(''V'', up10_in_2010)] None = Inr [(''m1'', ''s1'')]"
    by (simp add: run_category_defs)
  have ca: "category two_years ''A'' (Some [(''V'', up10_in_2010)]) None True Display_none
              = (Inr \<lparr>printed = [], returned = Nothing\<rparr>, ?s1, None)"
    by (simp add: run_category_defs)
  have qb: "qualifying ?s1 [(''V'', lo0_in_2010)] None = Inr [(''m1'', ''s1'')]"
    by (simp add: run_category_defs)
  have cb: "category ?s1 ''B'' (Some [(''V'', lo0_in_2010)]) None True Display_none
              = (Inr \<lparr>printed = [], returned = Nothing\<rparr>, ?s2, None)"
    by (simp add: run_category_defs)
  have d: "distinct (map fst (cat two_years))"
    by (simp add: run_category_defs)
  from category_overwrite [OF qa _ _ ca qb _ _ cb] d cb show ?thesis by simp
qed

text \<open>
  C6, evaluated on the source.  The claim reads: when the sets of keys that satisfy the
  criteria, variable by variable, have an empty intersection, \<open>category\<close> leaves the
  table as it is and reports that nothing matched.  With the filters
  \<open>{'region': 'r1'}\<close> the check of \<open>V\<close> for 2010 returns the pair (m1, s1) and the
  check of \<open>W\<close> over all years returns no pair, so the intersection is empty; inside
  \<open>category\<close> the check of \<open>W\<close> gets the dictionary that the check of \<open>V\<close> has
  updated, sees the year 2010 only, and the pair is labelled.  This is the in-place
  update of C4 at work in \<open>category\<close>.
\<close>

theorem category_labels_on_empty_intersection:
  "fst (check two_variables ''V'' up10_in_2010 (Some [(''region'', PStr ''r1'')]) True)
     = Inr (By_year [((''m1'', ''s1''), 2010)]) \<and>
   fst (check two_variables ''W'' up10 (Some [(''region'', PStr ''r1'')]) True) = Inr (Index []) \<and>
   set (index_of (By_year [((''m1'', ''s1''), 2010)])) \<inter> set (index_of (Index [])) = {} \<and>
   cat two_variables = [((''m1'', ''s1''), None)] \<and>
   category two_variables ''X'' (Some [(''V'', up10_in_2010), (''W'', up10)])
       (Some [(''region'', PStr ''r1'')]) True Display_list
     = (Inr \<lparr>printed = [''The following scenarios are categorized as '' @ [CHR 0x27] @ ''X''
                           @ [CHR 0x27] @ '':''],
             returned = Frame [(''m1'', ''s1'')]\<rparr>,
        two_variables\<lparr>cat := [((''m1'', ''s1''), Some ''X'')]\<rparr>,
        Some [(''region'', PStr ''r1''), (''year'', PInt 2010), (''variable'', PStr ''W'')])"
  by (simp add: run_category_defs two_variables_def)

text \<open>
  Where the statement of C6 holds: when no key is left after the loop of \<open>category\<close>,
  the call returns the frame as it was and prints that no scenario satisfies the
  criteria; and with no filters (or empty ones) every check gets a dictionary of its
  own, the keys left are those of the table that lie in the index of every check, and
  the frame is returned as it was when every key of the table is missing from the
  result of some check.
\<close>

lemma category_no_match:
  "(qualifying self crit filters = Inr [] \<and> crit \<noteq> [] \<longrightarrow>
      (\<exists>f'. category self name (Some crit) filters assign disp
         = (Inr \<lparr>printed = [''No scenario satisfies the criteria''], returned = Nothing\<rparr>,
            self, f'))) \<and>
   ((filters = None \<or> filters = Some []) \<and> crit \<noteq> [] \<and>
    (\<forall>(v, c) \<in> set crit. \<exists>r. fst (check self v c filters True) = Inr r) \<and>
    (\<forall>k \<in> fst ` set (cat self). \<exists>(v, c) \<in> set crit.
        \<forall>r. fst (check self v c filters True) = Inr r \<longrightarrow> k \<notin> set (index_of r)) \<longrightarrow>
      category self name (Some crit) filters assign disp
        = (Inr \<lparr>printed = [''No scenario satisfies the criteria''], returned = Nothing\<rparr>,
           self, filters))"
proof (intro conjI impI)
  assume h: "qualifying self crit filters = Inr [] \<and> crit \<noteq> []"
  then obtain g where "category_loop self crit filters (map fst (cat self)) = (Inr [], g)"
    by (cases "category_loop self crit filters (map fst (cat self))") (simp add: qualifying_def)
  from category_empty [OF _ this] h
  show "\<exists>f'. category self name (Some crit) filters assign disp
         = (Inr \<lparr>printed = [''No scenario satisfies the criteria''], returned = Nothing\<rparr>,
            self, f')"
    by blast
next
  assume h: "(filters = None \<or> filters = Some []) \<and> crit \<noteq> [] \<and>
    (\<forall>(v, c) \<in> set crit. \<exists>r. fst (check self v c filters True) = Inr r) \<and>
    (\<forall>k \<in> fst ` set (cat self). \<exists>(v, c) \<in> set crit.
        \<forall>r. fst (check self v c filters True) = Inr r \<longrightarrow> k \<notin> set (index_of r))"
  then have fresh: "filters = None \<or> filters = Some []"
    and ok: "\<forall>(v, c) \<in> set crit. \<exists>r. fst (check self v c filters True) = Inr r"
    and none: "\<forall>k \<in> fst ` set (cat self). \<exists>(v, c) \<in> set crit.
        \<forall>r. fst (check self v c filters True) = Inr r \<longrightarrow> k \<notin> set (index_of r)"
    by blast+
  from category_loop_fresh [OF fresh ok, of "map fst (cat self)"]
  obtain ks where ks: "category_loop self crit filters (map fst (cat self)) = (Inr ks, filters)"
    and set: "set ks = {k \<in> set (map fst (cat self)). \<forall>(v, c) \<in> set crit.
                \<forall>r. fst (check self v c filters True) = Inr r \<longrightarrow> k \<in> set (index_of r)}"
    by blast
  have "ks = []"
  proof (cases ks)
    case Nil
    then show ?thesis .
  next
    case (Cons k ks')
    then have k: "k \<in> set ks" by simp
    with set have kin: "k \<in> fst ` set (cat self)"
      and all: "\<forall>(v, c) \<in> set crit. \<forall>r. fst (check self v c filters True) = Inr r \<longrightarrow> k \<in> set (index_of r)"
      by auto
    from none kin obtain v c where vc: "(v, c) \<in> set crit"
      and nk: "\<forall>r. fst (check self v c filters True) = Inr r \<longrightarrow> k \<notin> set (index_of r)"
      by blast
    from ok vc obtain r where "fst (check self v c filters True) = Inr r" by blast
    with all vc nk have False by blast
    then show ?thesis ..
  qed
  with ks category_empty [of name crit self filters filters assign disp] h
  show "category self name (Some crit) filters assign disp
        = (Inr \<lparr>printed = [''No scenario satisfies the criteria''], returned = Nothing\<rparr>,
           self, filters)"
    by simp
qed

lemma category_no_match_witness:
  "category two_years ''X'' (Some [(''V'', up10)]) None True Display_list
     = (Inr \<lparr>printed = [''No scenario satisfies the criteria''], returned = Nothing\<rparr>,
        two_years, None) \<and>
   (\<exists>f'. category two_years ''X'' (Some [(''V'', up10)]) (Some [(''region'', PStr ''r1'')]) True
            Display_list
          = (Inr \<lparr>printed = [''No scenario satisfies the criteria''], returned = Nothing\<rparr>,
             two_years, f'))"
proof -
  have q: "qualifying two_years [(''V'', up10)] (Some [(''region'', PStr ''r1'')]) = Inr []"
    by (simp add: run_category_defs)
  have c: "check two_years ''V'' up10 None True = (Inr (Index []), None)"
    by (simp add: run_category_defs)
  have k: "cat two_years = [((''m1'', ''s1''), None)]"
    by (simp add: run_category_defs)
  show ?thesis
    using category_no_match
      [of two_years "[(''V'', up10)]" "Some [(''region'', PStr ''r1'')]" "''X''" True Display_list]
      category_no_match [of two_years "[(''V'', up10)]" None "''X''" True Display_list]
      q c k
    by simp
qed

text \<open>
  C7: a second call of \<open>category\<close> with the same arguments, on the frame the first
  call returned, has the same outcome and returns that frame again.  The arguments are
  values here: the second call gets the filters the first call got, as with the default
  \<open>filters=None\<close> of the claim or with a dictionary written out anew (a dictionary
  object that is passed twice has been updated by the first call when it is not empty).
\<close>

theorem category_idempotent:
  assumes "category self name crit filters assign disp = (r, self', f')"
  shows "category self' name crit filters assign disp = (r, self', f')"
proof -
  consider (read) "name \<noteq> []" "crit = None \<or> crit = Some []"
    | (none) "name = []" "crit = None"
    | (loop) cr where "crit = Some cr" "\<not> (name \<noteq> [] \<and> cr = [])"
    by (cases crit) auto
  then show ?thesis
  proof cases
    case read
    with assms have "self' = self" by (simp add: category_read)
    with assms show ?thesis by simp
  next
    case none
    with assms have "self' = self" by (simp add: category_no_criteria)
    with assms show ?thesis by simp
  next
    case loop
    obtain res g where res: "category_loop self cr filters (map fst (cat self)) = (res, g)"
      by (cases "category_loop self cr filters (map fst (cat self))")
    show ?thesis
    proof (cases res)
      case (Inl e)
      with assms loop res have "self' = self" by (simp add: category_raises)
      with assms show ?thesis by simp
    next
      case (Inr ks)
      show ?thesis
      proof (cases "ks = [] \<or> \<not> assign")
        case True
        with assms loop res Inr have "self' = self"
          by (cases "ks = []") (simp_all add: category_empty category_nonempty)
        with assms show ?thesis by simp
      next
        case False
        then have ks: "ks \<noteq> []" and a: assign by simp_all
        from assms loop res Inr ks a
        have s': "self' = self\<lparr>cat := assign_category ks name (cat self)\<rparr>"
          and r: "r = Inr \<lparr>printed =
               (if disp \<noteq> Display_none
                then [''The following scenarios are categorized as '' @ [CHR 0x27]
                        @ name @ [CHR 0x27] @ '':'']
                else []),
             returned = (if disp \<noteq> Display_none then view_of disp ks else Nothing)\<rparr>"
          and f': "f' = g"
          by (simp_all add: category_nonempty)
        have "category_loop self' cr filters (map fst (cat self')) = (Inr ks, g)"
          using res Inr by (simp add: s')
        from category_nonempty [where assign = assign and disp = disp, OF loop(2) this ks]
        show ?thesis by (simp add: loop(1) r f' a s')
      qed
    qed
  qed
qed

theorem category_idempotent_witness:
  "category (two_years\<lparr>cat := [((''m1'', ''s1''), Some ''X'')]\<rparr>) ''X''
     (Some [(''V'', up10_in_2010)]) None True Display_list
   = (Inr \<lparr>printed = [''The following scenarios are categorized as '' @ [CHR 0x27] @ ''X''
                         @ [CHR 0x27] @ '':''],
           returned = Frame [(''m1'', ''s1'')]\<rparr>,
      two_years\<lparr>cat := [((''m1'', ''s1''), Some ''X'')]\<rparr>, None)"
proof -
  have "category two_years ''X'' (Some [(''V'', up10_in_2010)]) None True Display_list
   = (Inr \<lparr>printed = [''The following scenarios are categorized as '' @ [CHR 0x27] @ ''X''
                         @ [CHR 0x27] @ '':''],
           returned = Frame [(''m1'', ''s1'')]\<rparr>,
      two_years\<lparr>cat := [((''m1'', ''s1''), Some ''X'')]\<rparr>, None)"
    by (simp add: run_category_defs)
  then show ?thesis by (rule category_idempotent)
qed

end
